theory Spec2Isabelle
  imports Complex_Main "HOL-Library.Multiset" "HOL-Library.Sublist" "HOL-Library.AList"
begin

section \<open>Python strings\<close>

text \<open>
  A Python \<open>str\<close> is modelled as a \<open>string\<close>, each \<open>char\<close> standing for one code point
  below 256. \<open>str.strip()\<close> removes the leading and trailing white space; among these
  code points Python counts 9 to 13, 28 to 32, 133 and 160 as white space.
  \<open>str.lower()\<close> maps the upper-case letters 65 to 90, 192 to 214 and 216 to 222 to the
  code point 32 above and leaves every other code point below 256 as it is.
\<close>

definition py_isspace :: "char \<Rightarrow> bool" where
  "py_isspace c = ((of_char c :: nat) \<in> set [9, 10, 11, 12, 13, 28, 29, 30, 31, 32, 133, 160])"

definition py_strip :: "string \<Rightarrow> string" where
  "py_strip s = rev (dropWhile py_isspace (rev (dropWhile py_isspace s)))"

definition py_lower_char :: "char \<Rightarrow> char" where
  "py_lower_char c =
     (let n = (of_char c :: nat)
      in if (65 \<le> n \<and> n \<le> 90) \<or> (192 \<le> n \<and> n \<le> 214) \<or> (216 \<le> n \<and> n \<le> 222)
         then char_of (n + 32) else c)"

definition py_lower :: "string \<Rightarrow> string" where
  "py_lower s = map py_lower_char s"

text \<open>\<open>str(n)\<close> and the \<open>{n}\<close> of an f-string, for an integer that is never negative.\<close>

definition digit_char :: "nat \<Rightarrow> char" where
  "digit_char d = char_of (48 + d)"

fun str_nat :: "nat \<Rightarrow> string" where
  "str_nat n = (if n < 10 then [digit_char n] else str_nat (n div 10) @ [digit_char (n mod 10)])"

declare str_nat.simps [simp del]

text \<open>\<open>role.replace(' ', '_')\<close>: both strings have length one, so the replacement is per character.\<close>

definition replace_space :: "string \<Rightarrow> string" where
  "replace_space s = map (\<lambda>c. if c = CHR '' '' then CHR ''_'' else c) s"

text \<open>\<open>sep.join(xs)\<close>.\<close>

fun py_join :: "string \<Rightarrow> string list \<Rightarrow> string" where
  "py_join sep [] = []"
| "py_join sep [x] = x"
| "py_join sep (x # y # ys) = x @ sep @ py_join sep (y # ys)"

text \<open>
  \<open>s.split(sep)\<close> for a separator that is not empty (Python raises \<open>ValueError\<close> on an empty
  one; the program only splits on a two-character literal): the string is scanned from the
  left, \<open>acc\<close> holds the piece being read, and a match of the separator closes the piece and
  is skipped whole.
\<close>

function split_from :: "string \<Rightarrow> string \<Rightarrow> string \<Rightarrow> string list" where
  "split_from sep acc s =
     (if s = [] then [acc]
      else if sep \<noteq> [] \<and> prefix sep s then acc # split_from sep [] (drop (length sep) s)
      else split_from sep (acc @ [hd s]) (tl s))"
  by pat_completeness auto
termination
  by (relation "measure (\<lambda>(sep, acc, s). length s)") auto

declare split_from.simps [simp del]

definition py_split :: "string \<Rightarrow> string \<Rightarrow> string list" where
  "py_split s sep = split_from sep [] s"

section \<open>Data model\<close>

text \<open>
  A question as the question bank, the sampler's result and the request model
  \<open>QuestionModel\<close> have it: the keys \<open>question\<close>, \<open>options\<close> and \<open>answer\<close>.
\<close>

record QuestionModel =
  q_question :: string
  q_options :: "string list"
  q_answer :: string

text \<open>
  \<open>KNOWLEDGE_BASE\<close>: the dictionary loaded from the JSON file, in the order of the file. A
  dictionary has each key once.
\<close>

type_synonym knowledge_base = "(string \<times> QuestionModel list) list"

section \<open>api.py: the submit operation\<close>

datatype exn = ValueError | DuplicateIDError | ServiceError

datatype http_error = Unprocessable "string list" | InternalServerError

record SubmissionRequest =
  req_role :: string
  req_answers :: "string list"
  req_questions :: "QuestionModel list"

text \<open>
  The validators of \<open>SubmissionRequest\<close>. The fields are validated in the order the class
  declares them (\<open>role\<close>, \<open>answers\<close>, \<open>questions\<close>), and \<open>values\<close> holds the fields that
  have passed validation so far: a field that comes later or that failed is not in it.
\<close>

record validated_values =
  v_role :: "string option"
  v_answers :: "string list option"
  v_questions :: "QuestionModel list option"

definition no_values :: validated_values where
  "no_values = \<lparr>v_role = None, v_answers = None, v_questions = None\<rparr>"

definition validate_role :: "knowledge_base \<Rightarrow> string \<Rightarrow> exn + string" where
  "validate_role kb v = (if v \<notin> set (map fst kb) then Inl ValueError else Inr v)"

definition validate_answers_length :: "string list \<Rightarrow> validated_values \<Rightarrow> exn + string list" where
  "validate_answers_length v values =
     (case v_questions values of
        Some qs \<Rightarrow> if length v \<noteq> length qs then Inl ValueError else Inr v
      | None \<Rightarrow> Inr v)"

definition parse_SubmissionRequest :: "knowledge_base \<Rightarrow> SubmissionRequest \<Rightarrow> http_error + SubmissionRequest" where
  "parse_SubmissionRequest kb raw =
     (let r1 = validate_role kb (req_role raw);
          values1 = (case r1 of Inr v \<Rightarrow> no_values\<lparr>v_role := Some v\<rparr> | Inl e \<Rightarrow> no_values);
          r2 = validate_answers_length (req_answers raw) values1;
          errs = (case r1 of Inl e \<Rightarrow> [''role''] | Inr v \<Rightarrow> [])
               @ (case r2 of Inl e \<Rightarrow> [''answers''] | Inr v \<Rightarrow> [])
      in if errs = [] then Inr raw else Inl (Unprocessable errs))"

text \<open>
  The loop of \<open>submit_assessment\<close> over \<open>zip(request.answers, request.questions)\<close>, with
  the counter \<open>correct_answers\<close> as accumulator.
\<close>

fun count_correct :: "nat \<Rightarrow> (string \<times> QuestionModel) list \<Rightarrow> nat" where
  "count_correct correct_answers [] = correct_answers"
| "count_correct correct_answers ((user_answer, question) # rest) =
     (if py_lower (py_strip user_answer) = py_lower (py_strip (q_answer question))
      then count_correct (correct_answers + 1) rest
      else count_correct correct_answers rest)"

text \<open>
  The percentage is a Python float; the model holds the exact quotient and leaves the
  rounding of the float arithmetic, of \<open>round(percentage, 2)\<close> and of the format
  \<open>{percentage:.1f}\<close> out: the text of the latter is the parameter \<open>fmt\<close>.
\<close>

definition percentage_of :: "nat \<Rightarrow> nat \<Rightarrow> rat" where
  "percentage_of correct_answers total_questions =
     (if total_questions > 0 then (of_nat correct_answers / of_nat total_questions) * 100 else 0)"

record ResultResponse =
  r_role :: string
  r_score :: nat
  r_total_questions :: nat
  r_percentage :: rat
  r_feedback :: string

definition fallback_feedback :: "(rat \<Rightarrow> string) \<Rightarrow> nat \<Rightarrow> nat \<Rightarrow> string" where
  "fallback_feedback fmt correct_answers total_questions =
     ''Assessment completed with a score of '' @ str_nat correct_answers @ '' out of ''
       @ str_nat total_questions @ '' questions correct (''
       @ fmt (percentage_of correct_answers total_questions)
       @ ''%). Detailed feedback is temporarily unavailable.''"

text \<open>
  \<open>get_feedback\<close> calls the external text-generation service: its outcome, the text or the
  exception it raises, is the parameter \<open>get_feedback\<close> of its callers.
\<close>

type_synonym feedback_service = "nat \<Rightarrow> nat \<Rightarrow> string \<Rightarrow> exn + string"

definition submit_assessment ::
  "feedback_service \<Rightarrow> (rat \<Rightarrow> string) \<Rightarrow> SubmissionRequest \<Rightarrow> http_error + ResultResponse" where
  "submit_assessment get_feedback fmt request =
     (let correct_answers = count_correct 0 (zip (req_answers request) (req_questions request));
          total_questions = length (req_questions request);
          percentage = percentage_of correct_answers total_questions;
          feedback = (case get_feedback correct_answers total_questions (req_role request) of
                        Inr text \<Rightarrow> text
                      | Inl e \<Rightarrow> fallback_feedback fmt correct_answers total_questions)
      in Inr \<lparr>r_role = req_role request, r_score = correct_answers,
              r_total_questions = total_questions, r_percentage = percentage,
              r_feedback = feedback\<rparr>)"

text \<open>The route \<open>POST /assessment/submit\<close>: the request model is validated, then the handler runs.\<close>

definition submit_route ::
  "knowledge_base \<Rightarrow> feedback_service \<Rightarrow> (rat \<Rightarrow> string) \<Rightarrow> SubmissionRequest \<Rightarrow> http_error + ResultResponse" where
  "submit_route kb get_feedback fmt raw =
     (case parse_SubmissionRequest kb raw of
        Inl e \<Rightarrow> Inl e
      | Inr request \<Rightarrow> submit_assessment get_feedback fmt request)"

section \<open>app.py: the session UI\<close>

text \<open>
  \<open>st.session_state\<close>. The dictionary \<open>user_answers\<close> maps a question index to the
  choice recorded for it.
\<close>

record session_state =
  ss_test_started :: bool
  ss_questions :: "QuestionModel list"
  ss_current_question :: nat
  ss_user_answers :: "(nat \<times> string) list"
  ss_score :: nat
  ss_feedback :: string
  ss_selected_role :: string

text \<open>
  The question screen: the radio button returns one of the question's options or nothing,
  and a choice that is truthy is recorded under the index of the question.
\<close>

definition record_choice :: "string option \<Rightarrow> session_state \<Rightarrow> session_state" where
  "record_choice user_choice st =
     (case user_choice of
        Some c \<Rightarrow> if c \<noteq> [] then st\<lparr>ss_user_answers := AList.update (ss_current_question st) c (ss_user_answers st)\<rparr>
                  else st
      | None \<Rightarrow> st)"

text \<open>The buttons of the question screen; the last question shows the submit button.\<close>

definition press_submit :: "session_state \<Rightarrow> session_state" where
  "press_submit st = st\<lparr>ss_current_question := ss_current_question st + 1\<rparr>"

text \<open>The loop of the results screen over \<open>enumerate(st.session_state.questions)\<close>.\<close>

fun ui_count :: "(nat \<times> string) list \<Rightarrow> nat \<Rightarrow> (nat \<times> QuestionModel) list \<Rightarrow> nat" where
  "ui_count ua sc [] = sc"
| "ui_count ua sc ((i, q) # rest) =
     (if map_of ua i = Some (q_answer q) then ui_count ua (sc + 1) rest else ui_count ua sc rest)"

text \<open>
  The results screen (the last branch of the script). It returns the session state the
  run leaves behind and the exception that left the script, if any. The score is stored
  in the session state before \<open>get_feedback\<close> is called, and that call is not inside
  any \<open>try\<close>: an exception it raises leaves the script, with the score stored and the
  feedback still empty.
\<close>

definition results_screen :: "feedback_service \<Rightarrow> session_state \<Rightarrow> session_state \<times> exn option" where
  "results_screen get_feedback st =
     (let st1 = (if ss_score st = 0 \<and> ss_user_answers st \<noteq> []
                 then st\<lparr>ss_score := ui_count (ss_user_answers st) 0 (enumerate 0 (ss_questions st))\<rparr>
                 else st);
          total = length (ss_questions st1)
      in if ss_feedback st1 = []
         then (case get_feedback (ss_score st1) total (ss_selected_role st1) of
                 Inl e \<Rightarrow> (st1, Some e)
               | Inr text \<Rightarrow> (st1\<lparr>ss_feedback := text\<rparr>, None))
         else (st1, None))"

section \<open>tool.py: the index\<close>

text \<open>
  An entry of the Chroma collection as \<open>setup_knowledge_base\<close> writes it: the id, the
  document and the four keys of the metadata. The collection is the list of its entries
  in the order they were added; the persistent store either has no collection of the name
  (\<open>None\<close>) or holds one.
\<close>

record IndexEntry =
  e_id :: string
  e_document :: string
  e_role :: string
  e_full_question :: string
  e_options :: string
  e_answer :: string

type_synonym collection = "IndexEntry list"

definition make_id :: "string \<Rightarrow> nat \<Rightarrow> string" where
  "make_id role i = replace_space role @ ''_'' @ str_nat i"

definition make_entry :: "string \<Rightarrow> nat \<Rightarrow> QuestionModel \<Rightarrow> IndexEntry" where
  "make_entry role i q =
     \<lparr>e_id = make_id role i, e_document = q_question q, e_role = role,
      e_full_question = q_question q, e_options = py_join ''||'' (q_options q),
      e_answer = q_answer q\<rparr>"

text \<open>The two nested loops that fill \<open>documents\<close>, \<open>metadata\<close> and \<open>ids\<close> in step.\<close>

definition role_batch :: "string \<Rightarrow> QuestionModel list \<Rightarrow> IndexEntry list" where
  "role_batch role questions = map (\<lambda>(i, q). make_entry role i q) (enumerate 0 questions)"

definition population :: "knowledge_base \<Rightarrow> IndexEntry list" where
  "population kb = concat (map (\<lambda>(role, questions). role_batch role questions) kb)"

text \<open>
  \<open>add_texts\<close> with ids hands the batch to the collection's \<open>upsert\<close>. The collection
  refuses an empty batch and a batch that names an id twice; otherwise an entry replaces
  the stored entry of its id, or is added at the end.
\<close>

fun upsert_one :: "IndexEntry \<Rightarrow> collection \<Rightarrow> collection" where
  "upsert_one e [] = [e]"
| "upsert_one e (x # xs) = (if e_id x = e_id e then e # xs else x # upsert_one e xs)"

definition add_texts :: "collection \<Rightarrow> IndexEntry list \<Rightarrow> exn + collection" where
  "add_texts coll batch =
     (if batch = [] then Inl ValueError
      else if \<not> distinct (map e_id batch) then Inl DuplicateIDError
      else Inr (fold upsert_one batch coll))"

text \<open>
  \<open>setup_knowledge_base\<close>, on the persistent store it finds; it returns the collection
  behind the vector store and the lines it printed. \<open>get_collection\<close> raises
  \<open>ValueError\<close> when there is no collection, and the \<open>Chroma\<close> constructor creates an
  empty one where none exists.
\<close>

definition setup_knowledge_base ::
  "knowledge_base \<Rightarrow> collection option \<Rightarrow> exn + (collection \<times> string list)" where
  "setup_knowledge_base kb store =
     (let roles_from_json = set (map fst kb);
          (rebuild_required, store1, out1) =
            (case store of
               None \<Rightarrow> (True, None, [''Collection not found. A new one will be created.''])
             | Some existing \<Rightarrow>
                 (let roles_in_db = (if existing \<noteq> [] then set (map e_role existing) else {})
                  in if roles_in_db \<noteq> roles_from_json
                     then (True, None,
                           [''Knowledge base roles mismatch detected. Rebuilding database...''])
                     else (False, Some existing, [])));
          coll = (case store1 of None \<Rightarrow> [] | Some c \<Rightarrow> c)
      in if rebuild_required \<or> length coll = 0
         then (case add_texts coll (population kb) of
                 Inl e \<Rightarrow> Inl e
               | Inr coll' \<Rightarrow>
                   Inr (coll', out1 @ [''Populating database with questions...'',
                                       ''Database population complete.'']))
         else Inr (coll, out1 @ [''Database is up-to-date and already populated.'']))"

section \<open>tool.py: the sampler\<close>

text \<open>
  \<open>vector_store._collection.get(where={"role": role})\<close>: the entries of the role. The
  store does not promise an order for them; the model returns them in the order they were
  added.
\<close>

definition collection_get :: "collection \<Rightarrow> string \<Rightarrow> IndexEntry list" where
  "collection_get coll r = filter (\<lambda>e. e_role e = r) coll"

definition question_obj :: "IndexEntry \<Rightarrow> QuestionModel" where
  "question_obj meta =
     \<lparr>q_question = e_full_question meta, q_options = py_split (e_options meta) ''||'',
      q_answer = e_answer meta\<rparr>"

text \<open>
  \<open>random.shuffle\<close>: for \<open>i\<close> from the last index down to 1, \<open>j = randbelow(i + 1)\<close> and
  the elements at \<open>i\<close> and \<open>j\<close> change places. The generator is the parameter
  \<open>randbelow\<close>; its draw is reduced modulo the bound, so that any function stands for a
  generator and every \<open>j\<close> from 0 to \<open>i\<close> can come out.
\<close>

definition swap :: "nat \<Rightarrow> nat \<Rightarrow> 'a list \<Rightarrow> 'a list" where
  "swap i j xs = (xs[i := xs ! j])[j := xs ! i]"

fun shuffle_from :: "(nat \<Rightarrow> nat) \<Rightarrow> nat \<Rightarrow> 'a list \<Rightarrow> 'a list" where
  "shuffle_from randbelow 0 xs = xs"
| "shuffle_from randbelow (Suc i) xs =
     (let j = randbelow (Suc i + 1) mod (Suc i + 1)
      in shuffle_from randbelow i (swap (Suc i) j xs))"

definition shuffle :: "(nat \<Rightarrow> nat) \<Rightarrow> 'a list \<Rightarrow> 'a list" where
  "shuffle randbelow xs = shuffle_from randbelow (length xs - 1) xs"

text \<open>The slice \<open>xs[:n]\<close>; a negative \<open>n\<close> counts from the end.\<close>

definition slice_to :: "'a list \<Rightarrow> int \<Rightarrow> 'a list" where
  "slice_to xs n = (if 0 \<le> n then take (nat n) xs else take (nat (int (length xs) + n)) xs)"

definition get_questions_for_role ::
  "(nat \<Rightarrow> nat) \<Rightarrow> collection \<Rightarrow> string \<Rightarrow> int \<Rightarrow> QuestionModel list" where
  "get_questions_for_role randbelow vector_store r num_questions =
     (let metadatas = collection_get vector_store r
      in if metadatas = [] then []
         else slice_to (shuffle randbelow (map question_obj metadatas)) num_questions)"

section \<open>Predicates of the specification\<close>

definition normalized_match :: "string \<times> QuestionModel \<Rightarrow> bool" where
  "normalized_match p = (py_lower (py_strip (fst p)) = py_lower (py_strip (q_answer (snd p))))"

definition exact_match :: "(nat \<times> string) list \<Rightarrow> nat \<times> QuestionModel \<Rightarrow> bool" where
  "exact_match ua p = (map_of ua (fst p) = Some (q_answer (snd p)))"

text \<open>An option text holds the delimiter, or ends with the delimiter's character.\<close>

fun has_delim :: "string \<Rightarrow> bool" where
  "has_delim [] = False"
| "has_delim [a] = False"
| "has_delim (a # b # cs) = ((a = CHR ''|'' \<and> b = CHR ''|'') \<or> has_delim (b # cs))"

definition ends_with_bar :: "string \<Rightarrow> bool" where
  "ends_with_bar s = (s \<noteq> [] \<and> last s = CHR ''|'')"

text \<open>The number a string of decimal digits stands for.\<close>

definition digits_value :: "string \<Rightarrow> nat" where
  "digits_value s = foldl (\<lambda>a c. 10 * a + (of_char c - 48)) 0 s"

section \<open>Scoring\<close>

lemma count_correct_filter:
  "count_correct n ps = n + length (filter normalized_match ps)"
  by (induction ps arbitrary: n) (auto simp: normalized_match_def)

lemma ui_count_filter:
  "ui_count ua n ps = n + length (filter (exact_match ua) ps)"
  by (induction ps arbitrary: n) (auto simp: exact_match_def)

lemma normalized_examples:
  "py_lower (py_strip ''a'') = ''a''"
  "py_lower (py_strip ''A'') = ''a''"
  "py_lower (py_strip '' B '') = ''b''"
  "py_lower (py_strip ''B'') = ''b''"
  by code_simp+

lemma zip_take_right: "zip xs (take (length xs) ys) = zip xs ys"
proof (induction xs arbitrary: ys)
  case Nil
  show ?case by simp
next
  case (Cons x xs)
  then show ?case by (cases ys) simp_all
qed

lemma zip_take_left: "zip (take (length ys) xs) ys = zip xs ys"
proof (induction ys arbitrary: xs)
  case Nil
  show ?case by simp
next
  case (Cons y ys)
  then show ?case by (cases xs) simp_all
qed

text \<open>
  The validator of \<open>answers\<close> runs before \<open>questions\<close> is validated, so it never finds
  \<open>questions\<close> in \<open>values\<close>: a request with a known role passes whatever the two lengths.
\<close>

lemma parse_ignores_lengths:
  "req_role raw \<in> set (map fst kb) \<Longrightarrow> parse_SubmissionRequest kb raw = Inr raw"
  by (simp add: parse_SubmissionRequest_def validate_role_def validate_answers_length_def
      no_values_def)

text \<open>
  Claim C1 (a submission whose answers list and questions list differ in length is rejected
  and never scored). The route at a request with one answer and two questions, for a role
  of the knowledge base: the request is accepted and scored, one correct out of two.
\<close>

theorem submit_route_accepts_length_mismatch:
  "submit_route [(''Dev'', [])] (\<lambda>s t r. Inr ''ok'') (\<lambda>p. ''50.0'')
     \<lparr>req_role = ''Dev'', req_answers = [''A''],
      req_questions = [\<lparr>q_question = ''Q1'', q_options = [''A'', ''B''], q_answer = ''A''\<rparr>,
                       \<lparr>q_question = ''Q2'', q_options = [''A'', ''B''], q_answer = ''B''\<rparr>]\<rparr>
   = Inr \<lparr>r_role = ''Dev'', r_score = 1, r_total_questions = 2, r_percentage = 50,
          r_feedback = ''ok''\<rparr>"
  by (simp add: submit_route_def parse_SubmissionRequest_def validate_role_def
      validate_answers_length_def no_values_def submit_assessment_def Let_def percentage_of_def
      normalized_examples)

text \<open>
  The submit operation counts a pair of user answer and question as correct iff the two
  answers are equal after trimming and lower-casing; on the stored answers A, B and the
  user answers "a", " B " it scores 2.
\<close>

lemma submit_scores_normalized:
  "\<exists>res. submit_assessment get_feedback fmt request = Inr res
      \<and> r_score res
          = length (filter normalized_match (zip (req_answers request) (req_questions request)))"
  by (simp add: submit_assessment_def Let_def count_correct_filter)

lemma submit_scores_example:
  "\<exists>res. submit_assessment get_feedback fmt
          \<lparr>req_role = r, req_answers = [''a'', '' B ''],
           req_questions = [\<lparr>q_question = t1, q_options = o1, q_answer = ''A''\<rparr>,
                            \<lparr>q_question = t2, q_options = o2, q_answer = ''B''\<rparr>]\<rparr> = Inr res
      \<and> r_score res = 2"
  by (simp add: submit_assessment_def Let_def normalized_examples)

text \<open>
  The results screen, when it computes the score, counts the questions whose recorded
  choice is equal to the stored answer as it is, whether the feedback call fails or not.
\<close>

lemma results_screen_score:
  "ss_score st = 0 \<Longrightarrow> ss_user_answers st \<noteq> []
   \<Longrightarrow> ss_score (fst (results_screen get_feedback st))
       = length (filter (exact_match (ss_user_answers st)) (enumerate 0 (ss_questions st)))"
  by (simp add: results_screen_def Let_def ui_count_filter split: sum.splits)

text \<open>
  Claim C2 (every scoring path, the session UI's final submit too, compares the answers
  case-insensitively and trimmed, so the stored answers A, B and the user answers "a",
  " B " score 2). The results screen of the session UI at these answers, the choices
  being options of the two questions: the score is 0.
\<close>

theorem results_screen_exact_comparison:
  "results_screen (\<lambda>s t r. Inr ''ok'')
     \<lparr>ss_test_started = True, ss_questions = [\<lparr>q_question = ''Q1'', q_options = [''a'', ''A''], q_answer = ''A''\<rparr>, \<lparr>q_question = ''Q2'', q_options = ['' B '', ''B''], q_answer = ''B''\<rparr>],
      ss_current_question = 2, ss_user_answers = [(0, ''a''), (1, '' B '')],
      ss_score = 0, ss_feedback = [], ss_selected_role = ''Dev''\<rparr>
   = (\<lparr>ss_test_started = True, ss_questions = [\<lparr>q_question = ''Q1'', q_options = [''a'', ''A''], q_answer = ''A''\<rparr>, \<lparr>q_question = ''Q2'', q_options = ['' B '', ''B''], q_answer = ''B''\<rparr>],
      ss_current_question = 2, ss_user_answers = [(0, ''a''), (1, '' B '')],
      ss_score = 0, ss_feedback = ''ok'', ss_selected_role = ''Dev''\<rparr>, None)"
  by (simp add: results_screen_def Let_def)

section \<open>Feedback\<close>

text \<open>The submit operation replaces a failure of the feedback service by the fallback text.\<close>

lemma submit_fallback:
  "get_feedback (count_correct 0 (zip (req_answers request) (req_questions request)))
       (length (req_questions request)) (req_role request) = Inl e
   \<Longrightarrow> \<exists>res. submit_assessment get_feedback fmt request = Inr res
        \<and> r_feedback res = fallback_feedback fmt (r_score res) (r_total_questions res)"
  by (simp add: submit_assessment_def Let_def)

lemma fallback_feedback_example:
  "fallback_feedback (\<lambda>p. ''70.0'') 7 10
   = ''Assessment completed with a score of 7 out of 10 questions correct (70.0%). Detailed feedback is temporarily unavailable.''"
  by code_simp

text \<open>
  Claim C3 (every caller of the feedback generation catches its failure and shows the
  fallback text). The results screen of the session UI at a feedback service that raises:
  the score is stored, then the exception leaves the script, and no fallback text is
  stored.
\<close>

theorem results_screen_feedback_error:
  "results_screen (\<lambda>s t r. Inl ServiceError)
     \<lparr>ss_test_started = True,
      ss_questions = [\<lparr>q_question = ''Q1'', q_options = [''A'', ''B''], q_answer = ''A''\<rparr>],
      ss_current_question = 1, ss_user_answers = [(0, ''A'')],
      ss_score = 0, ss_feedback = [], ss_selected_role = ''Dev''\<rparr>
   = (\<lparr>ss_test_started = True,
      ss_questions = [\<lparr>q_question = ''Q1'', q_options = [''A'', ''B''], q_answer = ''A''\<rparr>],
      ss_current_question = 1, ss_user_answers = [(0, ''A'')],
      ss_score = 1, ss_feedback = [], ss_selected_role = ''Dev''\<rparr>, Some ServiceError)"
  by (simp add: results_screen_def Let_def)

text \<open>
  Claim C10: the submit operation scores the pairs of the answers with the first
  \<open>len(answers)\<close> questions only, so the score is at most the number of answers; the total
  and the denominator of the percentage are the number of questions; and the answers
  beyond the number of questions do not change the result.
\<close>

theorem submit_assessment_zip:
  "\<exists>res. submit_assessment get_feedback fmt request = Inr res
     \<and> r_score res = length (filter normalized_match
          (zip (req_answers request) (take (length (req_answers request)) (req_questions request))))
     \<and> r_score res \<le> length (req_answers request)
     \<and> r_total_questions res = length (req_questions request)
     \<and> r_percentage res = (if length (req_questions request) > 0
          then of_nat (r_score res) / of_nat (length (req_questions request)) * 100 else 0)
     \<and> submit_assessment get_feedback fmt
          (request\<lparr>req_answers := take (length (req_questions request)) (req_answers request)\<rparr>)
        = Inr res"
proof -
  let ?ps = "zip (req_answers request) (req_questions request)"
  have z1: "zip (req_answers request)
      (take (length (req_answers request)) (req_questions request)) = ?ps"
    by (rule zip_take_right)
  have z2: "zip (take (length (req_questions request)) (req_answers request))
      (req_questions request) = ?ps"
    by (rule zip_take_left)
  have le: "length (filter normalized_match ?ps) \<le> length (req_answers request)"
    by (rule order_trans [OF length_filter_le]) simp
  show ?thesis
    using le by (simp add: submit_assessment_def Let_def count_correct_filter z1 z2 percentage_of_def)
qed

section \<open>The sampler\<close>

text \<open>
  Claim C9: for a role with no entry in the index, known to the bank or not, the sampler
  returns the empty list, whatever the count; the function has no failing branch.
\<close>

theorem sampler_empty_role:
  "collection_get vector_store r = []
   \<Longrightarrow> get_questions_for_role randbelow vector_store r num_questions = []"
  by (simp add: get_questions_for_role_def)

theorem sampler_empty_role_witness:
  "collection_get [make_entry ''Dev'' 0 \<lparr>q_question = ''Q1'', q_options = [''A'', ''B''], q_answer = ''A''\<rparr>] ''QA'' = []
   \<and> get_questions_for_role (\<lambda>n. 0)
        [make_entry ''Dev'' 0 \<lparr>q_question = ''Q1'', q_options = [''A'', ''B''], q_answer = ''A''\<rparr>]
        ''QA'' 10 = []"
proof -
  have h: "collection_get [make_entry ''Dev'' 0 \<lparr>q_question = ''Q1'', q_options = [''A'', ''B''], q_answer = ''A''\<rparr>] ''QA'' = []"
    by (simp add: collection_get_def make_entry_def)
  show ?thesis using h sampler_empty_role [OF h, of "\<lambda>n. 0" 10] by simp
qed

text \<open>The shuffle permutes the list, and it commutes with a map over the elements.\<close>

lemma length_swap [simp]: "length (swap i j xs) = length xs"
  by (simp add: swap_def)

lemma mset_swap_eq: "i < length xs \<Longrightarrow> j < length xs \<Longrightarrow> mset (swap i j xs) = mset xs"
  unfolding swap_def by (rule mset_swap)

lemma map_swap: "i < length xs \<Longrightarrow> j < length xs \<Longrightarrow> swap i j (map f xs) = map f (swap i j xs)"
  by (simp add: swap_def map_update)

lemma length_shuffle_from [simp]: "length (shuffle_from rb i xs) = length xs"
  by (induction i arbitrary: xs) (simp_all add: Let_def)

lemma draw_in_range: "Suc i < length xs \<Longrightarrow> rb (Suc i + 1) mod (Suc i + 1) < length xs"
proof -
  assume a: "Suc i < length xs"
  have "rb (Suc i + 1) mod (Suc i + 1) < Suc i + 1" by (rule mod_less_divisor) simp
  with a show ?thesis by linarith
qed

lemma mset_shuffle_from: "i < length xs \<Longrightarrow> mset (shuffle_from rb i xs) = mset xs"
proof (induction i arbitrary: xs)
  case 0
  show ?case by simp
next
  case (Suc i)
  let ?j = "rb (Suc i + 1) mod (Suc i + 1)"
  have j: "?j < length xs" using Suc.prems by (rule draw_in_range)
  have "mset (shuffle_from rb i (swap (Suc i) ?j xs)) = mset (swap (Suc i) ?j xs)"
    using Suc.prems by (intro Suc.IH) simp
  also have "\<dots> = mset xs" using Suc.prems j by (rule mset_swap_eq)
  finally show ?case by (simp add: Let_def)
qed

lemma map_shuffle_from: "i < length xs \<Longrightarrow> shuffle_from rb i (map f xs) = map f (shuffle_from rb i xs)"
proof (induction i arbitrary: xs)
  case 0
  show ?case by simp
next
  case (Suc i)
  let ?j = "rb (Suc i + 1) mod (Suc i + 1)"
  have j: "?j < length xs" using Suc.prems by (rule draw_in_range)
  have "shuffle_from rb i (map f (swap (Suc i) ?j xs)) = map f (shuffle_from rb i (swap (Suc i) ?j xs))"
    using Suc.prems by (intro Suc.IH) simp
  moreover have "swap (Suc i) ?j (map f xs) = map f (swap (Suc i) ?j xs)"
    using Suc.prems j by (rule map_swap)
  ultimately show ?case by (simp add: Let_def)
qed

lemma mset_shuffle: "mset (shuffle rb xs) = mset xs"
  by (cases "xs = []") (simp_all add: shuffle_def mset_shuffle_from)

lemma map_shuffle: "shuffle rb (map f xs) = map f (shuffle rb xs)"
  by (cases "xs = []") (simp_all add: shuffle_def map_shuffle_from)

lemma length_shuffle [simp]: "length (shuffle rb xs) = length xs"
  by (simp add: shuffle_def)

lemma mset_take_subset: "mset (take n xs) \<subseteq># mset xs"
proof -
  have "mset xs = mset (take n xs) + mset (drop n xs)"
    by (simp flip: mset_append)
  then show ?thesis by simp
qed

text \<open>The sampler's result in terms of the entries it picked.\<close>

lemma sampler_sample_entries:
  assumes ids: "distinct (map e_id vector_store)" and n: "0 \<le> num_questions"
  shows "\<exists>picked. get_questions_for_role randbelow vector_store r num_questions = map question_obj picked
     \<and> length picked = min (length (collection_get vector_store r)) (nat num_questions)
     \<and> distinct (map e_id picked)
     \<and> mset picked \<subseteq># mset (collection_get vector_store r)
     \<and> (int (length (collection_get vector_store r)) \<le> num_questions
          \<longrightarrow> mset picked = mset (collection_get vector_store r))"
proof -
  let ?all = "collection_get vector_store r"
  let ?sh = "shuffle randbelow ?all"
  let ?picked = "take (nat num_questions) ?sh"
  have res: "get_questions_for_role randbelow vector_store r num_questions = map question_obj ?picked"
  proof (cases "?all = []")
    case True
    then show ?thesis by (simp add: get_questions_for_role_def shuffle_def)
  next
    case False
    then show ?thesis
      using n by (simp add: get_questions_for_role_def Let_def slice_to_def map_shuffle take_map)
  qed
  have len: "length ?picked = min (length ?all) (nat num_questions)"
    by simp
  have "distinct (map e_id ?all)"
    using ids by (simp add: collection_get_def distinct_map_filter)
  moreover have "mset (map e_id ?sh) = mset (map e_id ?all)"
    by (simp add: mset_shuffle)
  ultimately have "distinct (map e_id ?sh)"
    by (rule iffD2 [OF mset_eq_imp_distinct_iff, rotated])
  then have "distinct (take (nat num_questions) (map e_id ?sh))"
    by (rule distinct_take)
  then have dist: "distinct (map e_id ?picked)"
    by (simp only: take_map)
  have "mset ?picked \<subseteq># mset ?sh"
    by (rule mset_take_subset)
  then have sub: "mset ?picked \<subseteq># mset ?all"
    by (simp only: mset_shuffle)
  have full: "int (length ?all) \<le> num_questions \<longrightarrow> mset ?picked = mset ?all"
  proof
    assume "int (length ?all) \<le> num_questions"
    then have "length ?sh \<le> nat num_questions" by simp
    then have "?picked = ?sh" by (rule take_all)
    then show "mset ?picked = mset ?all" by (simp only: mset_shuffle)
  qed
  show ?thesis
    by (rule exI [of _ ?picked], intro conjI) (rule res len dist sub full)+
qed

text \<open>
  Claim C6: for a role with \<open>k\<close> entries in the index and a count that is not negative
  (the sampler's contract asks for a count of at least 1), the sampler returns the
  questions, options split back into a list, of \<open>min(k, count)\<close> entries of the index
  whose role is the one asked for, no entry taken twice (their ids are distinct, as the
  ids of a collection are), and of all \<open>k\<close> entries in some order when the count is at
  least \<open>k\<close>.
\<close>

theorem sampler_sample:
  assumes ids: "distinct (map e_id vector_store)" and n: "0 \<le> num_questions"
  shows "\<exists>picked. get_questions_for_role randbelow vector_store r num_questions
         = map (\<lambda>e. \<lparr>q_question = e_full_question e, q_options = py_split (e_options e) ''||'', q_answer = e_answer e\<rparr>) picked
     \<and> length (get_questions_for_role randbelow vector_store r num_questions)
         = min (length (filter (\<lambda>e. e_role e = r) vector_store)) (nat num_questions)
     \<and> length picked = min (length (filter (\<lambda>e. e_role e = r) vector_store)) (nat num_questions)
     \<and> distinct (map e_id picked)
     \<and> mset picked \<subseteq># mset (filter (\<lambda>e. e_role e = r) vector_store)
     \<and> (int (length (filter (\<lambda>e. e_role e = r) vector_store)) \<le> num_questions
          \<longrightarrow> mset picked = mset (filter (\<lambda>e. e_role e = r) vector_store))"
proof -
  have q: "question_obj = (\<lambda>e. \<lparr>q_question = e_full_question e, q_options = py_split (e_options e) ''||'', q_answer = e_answer e\<rparr>)"
    by (rule ext) (simp add: question_obj_def)
  from sampler_sample_entries [OF ids n, of randbelow r]
  obtain picked where p: "get_questions_for_role randbelow vector_store r num_questions
         = map question_obj picked"
      "length picked = min (length (collection_get vector_store r)) (nat num_questions)"
      "distinct (map e_id picked)"
      "mset picked \<subseteq># mset (collection_get vector_store r)"
      "int (length (collection_get vector_store r)) \<le> num_questions
          \<longrightarrow> mset picked = mset (collection_get vector_store r)"
    by blast
  have len: "length (get_questions_for_role randbelow vector_store r num_questions)
      = min (length (collection_get vector_store r)) (nat num_questions)"
    using p(1,2) by simp
  show ?thesis
    by (rule exI [of _ picked], intro conjI)
       (use p len in \<open>simp_all only: collection_get_def q\<close>)
qed

theorem sampler_sample_witness:
  "distinct (map e_id (population [(''Dev'', [\<lparr>q_question = ''Q1'', q_options = [''A'', ''B''], q_answer = ''A''\<rparr>, \<lparr>q_question = ''Q2'', q_options = [''A'', ''B''], q_answer = ''B''\<rparr>, \<lparr>q_question = ''Q3'', q_options = [''A'', ''B''], q_answer = ''A''\<rparr>]), (''QA'', [\<lparr>q_question = ''Q4'', q_options = [''A'', ''B''], q_answer = ''B''\<rparr>])]))
   \<and> (0::int) \<le> 2
   \<and> (\<exists>picked. get_questions_for_role (\<lambda>n. 0) (population [(''Dev'', [\<lparr>q_question = ''Q1'', q_options = [''A'', ''B''], q_answer = ''A''\<rparr>, \<lparr>q_question = ''Q2'', q_options = [''A'', ''B''], q_answer = ''B''\<rparr>, \<lparr>q_question = ''Q3'', q_options = [''A'', ''B''], q_answer = ''A''\<rparr>]), (''QA'', [\<lparr>q_question = ''Q4'', q_options = [''A'', ''B''], q_answer = ''B''\<rparr>])]) ''Dev'' 2
         = map (\<lambda>e. \<lparr>q_question = e_full_question e, q_options = py_split (e_options e) ''||'', q_answer = e_answer e\<rparr>) picked
       \<and> length picked = 2 \<and> distinct (map e_id picked)
       \<and> mset picked \<subseteq># mset (filter (\<lambda>e. e_role e = ''Dev'') (population [(''Dev'', [\<lparr>q_question = ''Q1'', q_options = [''A'', ''B''], q_answer = ''A''\<rparr>, \<lparr>q_question = ''Q2'', q_options = [''A'', ''B''], q_answer = ''B''\<rparr>, \<lparr>q_question = ''Q3'', q_options = [''A'', ''B''], q_answer = ''A''\<rparr>]), (''QA'', [\<lparr>q_question = ''Q4'', q_options = [''A'', ''B''], q_answer = ''B''\<rparr>])])))
   \<and> get_questions_for_role (\<lambda>n. 0) (population [(''Dev'', [\<lparr>q_question = ''Q1'', q_options = [''A'', ''B''], q_answer = ''A''\<rparr>, \<lparr>q_question = ''Q2'', q_options = [''A'', ''B''], q_answer = ''B''\<rparr>, \<lparr>q_question = ''Q3'', q_options = [''A'', ''B''], q_answer = ''A''\<rparr>]), (''QA'', [\<lparr>q_question = ''Q4'', q_options = [''A'', ''B''], q_answer = ''B''\<rparr>])]) ''Dev'' 2 = [\<lparr>q_question = ''Q2'', q_options = [''A'', ''B''], q_answer = ''B''\<rparr>, \<lparr>q_question = ''Q3'', q_options = [''A'', ''B''], q_answer = ''A''\<rparr>]
   \<and> (0::int) \<le> 5
   \<and> int (length (filter (\<lambda>e. e_role e = ''Dev'') (population [(''Dev'', [\<lparr>q_question = ''Q1'', q_options = [''A'', ''B''], q_answer = ''A''\<rparr>, \<lparr>q_question = ''Q2'', q_options = [''A'', ''B''], q_answer = ''B''\<rparr>, \<lparr>q_question = ''Q3'', q_options = [''A'', ''B''], q_answer = ''A''\<rparr>]), (''QA'', [\<lparr>q_question = ''Q4'', q_options = [''A'', ''B''], q_answer = ''B''\<rparr>])]))) \<le> 5
   \<and> (\<exists>picked. get_questions_for_role (\<lambda>n. 0) (population [(''Dev'', [\<lparr>q_question = ''Q1'', q_options = [''A'', ''B''], q_answer = ''A''\<rparr>, \<lparr>q_question = ''Q2'', q_options = [''A'', ''B''], q_answer = ''B''\<rparr>, \<lparr>q_question = ''Q3'', q_options = [''A'', ''B''], q_answer = ''A''\<rparr>]), (''QA'', [\<lparr>q_question = ''Q4'', q_options = [''A'', ''B''], q_answer = ''B''\<rparr>])]) ''Dev'' 5
         = map (\<lambda>e. \<lparr>q_question = e_full_question e, q_options = py_split (e_options e) ''||'', q_answer = e_answer e\<rparr>) picked
       \<and> length picked = 3
       \<and> mset picked = mset (filter (\<lambda>e. e_role e = ''Dev'') (population [(''Dev'', [\<lparr>q_question = ''Q1'', q_options = [''A'', ''B''], q_answer = ''A''\<rparr>, \<lparr>q_question = ''Q2'', q_options = [''A'', ''B''], q_answer = ''B''\<rparr>, \<lparr>q_question = ''Q3'', q_options = [''A'', ''B''], q_answer = ''A''\<rparr>]), (''QA'', [\<lparr>q_question = ''Q4'', q_options = [''A'', ''B''], q_answer = ''B''\<rparr>])])))"
proof -
  let ?vs = "population [(''Dev'', [\<lparr>q_question = ''Q1'', q_options = [''A'', ''B''], q_answer = ''A''\<rparr>, \<lparr>q_question = ''Q2'', q_options = [''A'', ''B''], q_answer = ''B''\<rparr>, \<lparr>q_question = ''Q3'', q_options = [''A'', ''B''], q_answer = ''A''\<rparr>]), (''QA'', [\<lparr>q_question = ''Q4'', q_options = [''A'', ''B''], q_answer = ''B''\<rparr>])]"
  have h1: "distinct (map e_id ?vs)" by code_simp
  have h2: "(0::int) \<le> 2" by simp
  have h5: "(0::int) \<le> 5" by simp
  have k: "length (filter (\<lambda>e. e_role e = ''Dev'') ?vs) = 3" by code_simp
  have ev: "get_questions_for_role (\<lambda>n. 0) ?vs ''Dev'' 2 = [\<lparr>q_question = ''Q2'', q_options = [''A'', ''B''], q_answer = ''B''\<rparr>, \<lparr>q_question = ''Q3'', q_options = [''A'', ''B''], q_answer = ''A''\<rparr>]" by code_simp
  from sampler_sample [OF h1 h2, of "\<lambda>n. 0" "''Dev''"] k
  have a: "\<exists>picked. get_questions_for_role (\<lambda>n. 0) ?vs ''Dev'' 2
         = map (\<lambda>e. \<lparr>q_question = e_full_question e, q_options = py_split (e_options e) ''||'', q_answer = e_answer e\<rparr>) picked
       \<and> length picked = 2 \<and> distinct (map e_id picked)
       \<and> mset picked \<subseteq># mset (filter (\<lambda>e. e_role e = ''Dev'') ?vs)"
    by auto
  from sampler_sample [OF h1 h5, of "\<lambda>n. 0" "''Dev''"] k
  have b: "\<exists>picked. get_questions_for_role (\<lambda>n. 0) ?vs ''Dev'' 5
         = map (\<lambda>e. \<lparr>q_question = e_full_question e, q_options = py_split (e_options e) ''||'', q_answer = e_answer e\<rparr>) picked
       \<and> length picked = 3
       \<and> mset picked = mset (filter (\<lambda>e. e_role e = ''Dev'') ?vs)"
    by auto
  from h1 a ev b k show ?thesis by simp
qed

section \<open>Identifiers\<close>

text \<open>The decimal text of a number has no underscore, and the number can be read back from it.\<close>

lemma of_char_digit: "d < 10 \<Longrightarrow> (of_char (digit_char d) :: nat) = 48 + d"
  by (simp add: digit_char_def)

lemma digits_value_str_nat: "digits_value (str_nat n) = n"
proof (induction n rule: str_nat.induct)
  case (1 n)
  show ?case
  proof (cases "n < 10")
    case True
    then show ?thesis
      by (subst str_nat.simps) (simp add: digits_value_def of_char_digit)
  next
    case False
    then have "digits_value (str_nat (n div 10)) = n div 10" by (rule "1.IH")
    then show ?thesis using False
      by (subst str_nat.simps) (simp add: digits_value_def of_char_digit)
  qed
qed

lemma str_nat_inj: "str_nat m = str_nat n \<Longrightarrow> m = n"
  by (metis digits_value_str_nat)

lemma digit_char_not_underscore: "d < 10 \<Longrightarrow> digit_char d \<noteq> CHR ''_''"
proof
  assume d: "d < 10" and "digit_char d = CHR ''_''"
  then have "(of_char (digit_char d) :: nat) = of_char CHR ''_''" by simp
  then show False using d by (simp add: of_char_digit)
qed

lemma str_nat_no_underscore: "CHR ''_'' \<notin> set (str_nat n)"
proof (induction n rule: str_nat.induct)
  case (1 n)
  show ?case
  proof (cases "n < 10")
    case True
    then show ?thesis
      by (subst str_nat.simps) (simp add: digit_char_not_underscore [symmetric])
  next
    case False
    then have "CHR ''_'' \<notin> set (str_nat (n div 10))" by (rule "1.IH")
    moreover have "digit_char (n mod 10) \<noteq> CHR ''_''" by (rule digit_char_not_underscore) simp
    ultimately show ?thesis using False
      by (subst str_nat.simps) auto
  qed
qed

lemma split_at_last:
  assumes "c \<notin> set d1" "c \<notin> set d2" "a @ c # d1 = b @ c # d2"
  shows "a = b \<and> d1 = d2"
proof -
  have "rev d1 @ c # rev a = rev d2 @ c # rev b"
    using assms(3) by (metis rev_append rev.simps(2) append_assoc append_Cons append_Nil)
  then have "takeWhile (\<lambda>x. x \<noteq> c) (rev d1 @ c # rev a) = takeWhile (\<lambda>x. x \<noteq> c) (rev d2 @ c # rev b)"
    by simp
  moreover have "takeWhile (\<lambda>x. x \<noteq> c) (rev d1 @ c # rev a) = rev d1"
    using assms(1) by (subst takeWhile_append2) auto
  moreover have "takeWhile (\<lambda>x. x \<noteq> c) (rev d2 @ c # rev b) = rev d2"
    using assms(2) by (subst takeWhile_append2) auto
  ultimately have "d1 = d2" by simp
  with assms(3) show ?thesis by simp
qed

text \<open>
  Two identifiers are equal iff the ordinals are equal and the roles are equal once their
  spaces are underscores.
\<close>

lemma make_id_eq_iff:
  "make_id r1 i1 = make_id r2 i2 \<longleftrightarrow> replace_space r1 = replace_space r2 \<and> i1 = i2"
proof
  assume "make_id r1 i1 = make_id r2 i2"
  then have "replace_space r1 @ CHR ''_'' # str_nat i1 = replace_space r2 @ CHR ''_'' # str_nat i2"
    by (simp add: make_id_def)
  then have "replace_space r1 = replace_space r2 \<and> str_nat i1 = str_nat i2"
    by (rule split_at_last [OF str_nat_no_underscore str_nat_no_underscore])
  then show "replace_space r1 = replace_space r2 \<and> i1 = i2"
    by (simp add: str_nat_inj)
next
  assume "replace_space r1 = replace_space r2 \<and> i1 = i2"
  then show "make_id r1 i1 = make_id r2 i2" by (simp add: make_id_def)
qed

lemma upsert_one_fresh: "e_id e \<notin> set (map e_id coll) \<Longrightarrow> upsert_one e coll = coll @ [e]"
  by (induction coll) auto

lemma fold_upsert_fresh:
  "distinct (map e_id batch) \<Longrightarrow> set (map e_id coll) \<inter> set (map e_id batch) = {}
   \<Longrightarrow> fold upsert_one batch coll = coll @ batch"
proof (induction batch arbitrary: coll)
  case Nil
  show ?case by simp
next
  case (Cons e batch)
  have fresh: "e_id e \<notin> set (map e_id coll)" using Cons.prems(2) by auto
  have "fold upsert_one batch (coll @ [e]) = (coll @ [e]) @ batch"
    using Cons.prems by (intro Cons.IH) auto
  then show ?case using fresh by (simp add: upsert_one_fresh)
qed

lemma add_texts_empty_collection:
  "add_texts [] batch = Inr idx \<longleftrightarrow> batch \<noteq> [] \<and> distinct (map e_id batch) \<and> idx = batch"
  by (auto simp: add_texts_def fold_upsert_fresh)

lemma role_batch_nth: "role_batch r qs = map (\<lambda>i. make_entry r i (qs ! i)) [0..<length qs]"
  by (rule nth_equalityI) (simp_all add: role_batch_def nth_enumerate_eq)

lemma role_of_batch: "e \<in> set (role_batch r qs) \<Longrightarrow> e_role e = r"
  by (auto simp: role_batch_nth make_entry_def)

lemma collection_get_batch: "collection_get (role_batch r' qs) r = (if r' = r then role_batch r' qs else [])"
  by (auto simp: collection_get_def filter_empty_conv role_of_batch intro!: filter_True)

lemma population_Cons: "population ((r, qs) # kb) = role_batch r qs @ population kb"
  by (simp add: population_def)

lemma population_Nil: "population [] = []"
  by (simp add: population_def)

lemma collection_get_append: "collection_get (xs @ ys) r = collection_get xs r @ collection_get ys r"
  by (simp add: collection_get_def)

lemma collection_get_absent: "r \<notin> fst ` set kb \<Longrightarrow> collection_get (population kb) r = []"
proof (induction kb)
  case Nil
  show ?case by (simp add: population_Nil collection_get_def)
next
  case (Cons p kb)
  obtain r' qs where p: "p = (r', qs)" by (cases p)
  with Cons show ?case
    by (auto simp: population_Cons collection_get_append collection_get_batch)
qed

lemma collection_get_population:
  "distinct (map fst kb) \<Longrightarrow> (r, qs) \<in> set kb \<Longrightarrow> collection_get (population kb) r = role_batch r qs"
proof (induction kb)
  case Nil
  then show ?case by simp
next
  case (Cons p kb)
  obtain r' qs' where p: "p = (r', qs')" by (cases p)
  show ?case
  proof (cases "(r, qs) = p")
    case True
    then have "r \<notin> fst ` set kb" using Cons.prems(1) p by auto
    then have "collection_get (population kb) r = []" by (rule collection_get_absent)
    then show ?thesis using True p
      by (simp add: population_Cons collection_get_append collection_get_batch)
  next
    case False
    then have in_kb: "(r, qs) \<in> set kb" using Cons.prems(2) by simp
    then have "r \<in> fst ` set kb" by force
    then have "r' \<noteq> r" using Cons.prems(1) p by auto
    moreover have "collection_get (population kb) r = role_batch r qs"
      using Cons.prems(1) in_kb by (intro Cons.IH) simp_all
    ultimately show ?thesis using p
      by (simp add: population_Cons collection_get_append collection_get_batch)
  qed
qed

lemma roles_of_batch: "e_role ` set (role_batch r qs) = (if qs = [] then {} else {r})"
  by (cases qs) (auto simp: role_batch_nth make_entry_def)

lemma roles_of_population:
  "r \<in> e_role ` set (population kb) \<longleftrightarrow> (\<exists>qs. (r, qs) \<in> set kb \<and> qs \<noteq> [])"
proof (induction kb)
  case Nil
  show ?case by (simp add: population_Nil)
next
  case (Cons p kb)
  obtain r' qs' where p: "p = (r', qs')" by (cases p)
  have "r \<in> e_role ` set (population (p # kb))
      \<longleftrightarrow> r \<in> e_role ` set (role_batch r' qs') \<or> r \<in> e_role ` set (population kb)"
    by (auto simp: p population_Cons)
  also have "\<dots> \<longleftrightarrow> (r = r' \<and> qs' \<noteq> []) \<or> (\<exists>qs. (r, qs) \<in> set kb \<and> qs \<noteq> [])"
    by (simp add: roles_of_batch Cons.IH)
  also have "\<dots> \<longleftrightarrow> (\<exists>qs. (r, qs) \<in> set (p # kb) \<and> qs \<noteq> [])"
    by (auto simp: p)
  finally show ?case .
qed

lemma setup_cases:
  assumes "setup_knowledge_base kb store = Inr (idx, out)"
  shows "(idx = population kb \<and> population kb \<noteq> [] \<and> distinct (map e_id (population kb))
           \<and> ''Populating database with questions...'' \<in> set out)
       \<or> (store = Some idx \<and> idx \<noteq> [] \<and> set (map e_role idx) = set (map fst kb)
           \<and> out = [''Database is up-to-date and already populated.''])"
proof (cases store)
  case None
  with assms show ?thesis
    by (auto simp: setup_knowledge_base_def Let_def add_texts_empty_collection split: sum.splits)
next
  case (Some existing)
  show ?thesis
  proof (cases "(if existing \<noteq> [] then set (map e_role existing) else {}) \<noteq> set (map fst kb)")
    case True
    with assms Some show ?thesis
      by (auto simp: setup_knowledge_base_def Let_def add_texts_empty_collection split: sum.splits)
  next
    case False
    show ?thesis
    proof (cases "existing = []")
      case True
      with assms Some False show ?thesis
        by (auto simp: setup_knowledge_base_def Let_def add_texts_empty_collection split: sum.splits)
    next
      case ne: False
      with assms Some False show ?thesis
        by (auto simp: setup_knowledge_base_def Let_def split: sum.splits)
    qed
  qed
qed

lemma ids_of_batch: "map e_id (role_batch r qs) = map (make_id r) [0..<length qs]"
  by (simp add: role_batch_nth make_entry_def)

lemma distinct_batch_ids: "distinct (map e_id (role_batch r qs))"
  by (simp add: ids_of_batch distinct_map inj_on_def make_id_eq_iff)

lemma id_in_population:
  "x \<in> e_id ` set (population kb) \<Longrightarrow> \<exists>r i. r \<in> fst ` set kb \<and> x = make_id r i"
proof (induction kb)
  case Nil
  then show ?case by (simp add: population_Nil)
next
  case (Cons p kb)
  obtain r qs where p: "p = (r, qs)" by (cases p)
  from Cons.prems consider "x \<in> e_id ` set (role_batch r qs)" | "x \<in> e_id ` set (population kb)"
    by (auto simp: p population_Cons)
  then show ?case
  proof cases
    case 1
    then obtain i where "x = make_id r i" by (auto simp: role_batch_nth make_entry_def)
    then show ?thesis using p by auto
  next
    case 2
    with Cons.IH obtain r' i where "r' \<in> fst ` set kb" "x = make_id r' i" by blast
    then show ?thesis by auto
  qed
qed

lemma distinct_population_ids_inj:
  "distinct (map fst kb) \<Longrightarrow> inj_on replace_space (fst ` set kb)
   \<Longrightarrow> distinct (map e_id (population kb))"
proof (induction kb)
  case Nil
  show ?case by (simp add: population_Nil)
next
  case (Cons p kb)
  obtain r qs where p: "p = (r, qs)" by (cases p)
  have inj: "inj_on replace_space (fst ` set kb)"
    using Cons.prems(2) by (rule inj_on_subset) auto
  have rest: "distinct (map e_id (population kb))"
    using Cons.prems(1) inj by (intro Cons.IH) simp_all
  have disj: "e_id ` set (role_batch r qs) \<inter> e_id ` set (population kb) = {}"
  proof (rule ccontr)
    assume "e_id ` set (role_batch r qs) \<inter> e_id ` set (population kb) \<noteq> {}"
    then obtain x where x1: "x \<in> e_id ` set (role_batch r qs)" and x2: "x \<in> e_id ` set (population kb)"
      by blast
    from x1 obtain i where i: "x = make_id r i" by (auto simp: role_batch_nth make_entry_def)
    from id_in_population [OF x2] obtain r' i' where r': "r' \<in> fst ` set kb" and i': "x = make_id r' i'"
      by blast
    from i i' have "replace_space r = replace_space r'" by (simp add: make_id_eq_iff)
    moreover have "r \<in> fst ` set (p # kb)" "r' \<in> fst ` set (p # kb)" using p r' by auto
    ultimately have "r = r'" using Cons.prems(2) by (rule inj_onD [rotated])
    with r' Cons.prems(1) p show False by auto
  qed
  show ?case using rest disj by (simp add: p population_Cons distinct_batch_ids)
qed

lemma distinct_population_ids:
  assumes "distinct (map (\<lambda>p. replace_space (fst p)) kb)"
  shows "distinct (map e_id (population kb))"
proof -
  have "distinct (map (replace_space \<circ> fst) kb)"
    using assms by (simp add: comp_def)
  then have d: "distinct kb" and i: "inj_on (replace_space \<circ> fst) (set kb)"
    by (simp_all add: distinct_map)
  from i have i1: "inj_on fst (set kb)" by (rule inj_on_imageI2)
  with d have "distinct (map fst kb)" by (simp add: distinct_map)
  moreover from i1 i have "inj_on replace_space (fst ` set kb)"
    by (simp add: comp_inj_on_iff)
  ultimately show ?thesis by (rule distinct_population_ids_inj)
qed

text \<open>
  Claim C8, as amended: two (role, ordinal) pairs have the same id iff their ordinals
  are equal and their roles are equal after the replacement of spaces by underscores; so
  the ids of the entries of a bank are distinct, each the identity of one entry, for
  every bank in which no two roles become equal by that replacement.
\<close>

theorem make_id_injective:
  "(make_id r1 i1 = make_id r2 i2 \<longleftrightarrow> replace_space r1 = replace_space r2 \<and> i1 = i2)
   \<and> (distinct (map (\<lambda>p. replace_space (fst p)) kb) \<longrightarrow> distinct (map e_id (population kb)))"
  by (simp add: make_id_eq_iff distinct_population_ids)

theorem make_id_injective_witness:
  "distinct (map (\<lambda>p. replace_space (fst p)) [(''Data Analyst'', [\<lparr>q_question = ''Q1'', q_options = [''A'', ''B''], q_answer = ''A''\<rparr>]), (''Dev'', [\<lparr>q_question = ''Q1'', q_options = [''A'', ''B''], q_answer = ''A''\<rparr>, \<lparr>q_question = ''Q2'', q_options = [''A'', ''B''], q_answer = ''B''\<rparr>])])
   \<and> distinct (map e_id (population [(''Data Analyst'', [\<lparr>q_question = ''Q1'', q_options = [''A'', ''B''], q_answer = ''A''\<rparr>]), (''Dev'', [\<lparr>q_question = ''Q1'', q_options = [''A'', ''B''], q_answer = ''A''\<rparr>, \<lparr>q_question = ''Q2'', q_options = [''A'', ''B''], q_answer = ''B''\<rparr>])]))"
proof -
  have h: "distinct (map (\<lambda>p. replace_space (fst p)) [(''Data Analyst'', [\<lparr>q_question = ''Q1'', q_options = [''A'', ''B''], q_answer = ''A''\<rparr>]), (''Dev'', [\<lparr>q_question = ''Q1'', q_options = [''A'', ''B''], q_answer = ''A''\<rparr>, \<lparr>q_question = ''Q2'', q_options = [''A'', ''B''], q_answer = ''B''\<rparr>])])"
    by (simp add: replace_space_def)
  from h make_id_injective [of "''Dev''" 0 "''Dev''" 0 "[(''Data Analyst'', [\<lparr>q_question = ''Q1'', q_options = [''A'', ''B''], q_answer = ''A''\<rparr>]), (''Dev'', [\<lparr>q_question = ''Q1'', q_options = [''A'', ''B''], q_answer = ''A''\<rparr>, \<lparr>q_question = ''Q2'', q_options = [''A'', ''B''], q_answer = ''B''\<rparr>])]"]
  show ?thesis by blast
qed

text \<open>
  Claim C8 as stated fails: the roles "a b" and "a_b" are two keys of one bank, and their
  first questions get the same id.
\<close>

theorem make_id_collision_counterexample:
  "distinct (map fst [(''a b'', [\<lparr>q_question = ''Q1'', q_options = [''A'', ''B''], q_answer = ''A''\<rparr>]), (''a_b'', [\<lparr>q_question = ''Q1'', q_options = [''A'', ''B''], q_answer = ''A''\<rparr>])])
   \<and> (''a b'', 0::nat) \<noteq> (''a_b'', 0)
   \<and> make_id ''a b'' 0 = make_id ''a_b'' 0
   \<and> map e_id (population [(''a b'', [\<lparr>q_question = ''Q1'', q_options = [''A'', ''B''], q_answer = ''A''\<rparr>]), (''a_b'', [\<lparr>q_question = ''Q1'', q_options = [''A'', ''B''], q_answer = ''A''\<rparr>])]) = [''a_b_0'', ''a_b_0'']"
  by code_simp

section \<open>Option lists\<close>

lemma split_last_piece: "\<not> has_delim x \<Longrightarrow> split_from ''||'' acc x = [acc @ x]"
proof (induction x arbitrary: acc rule: has_delim.induct)
  case (3 a b cs)
  then have nb: "\<not> (a = CHR ''|'' \<and> b = CHR ''|'')" and nh: "\<not> has_delim (b # cs)" by simp_all
  have "split_from ''||'' acc (a # b # cs) = split_from ''||'' (acc @ [a]) (b # cs)"
    using nb by (subst split_from.simps) auto
  also have "\<dots> = [(acc @ [a]) @ b # cs]" using nh by (rule "3.IH")
  finally show ?case by simp
next
  case 1
  show ?case by (subst split_from.simps) simp
next
  case (2 v)
  show ?case by (subst split_from.simps, simp, subst split_from.simps, simp)
qed

lemma split_piece:
  "\<not> has_delim x \<Longrightarrow> \<not> ends_with_bar x
   \<Longrightarrow> split_from ''||'' acc (x @ ''||'' @ rest) = (acc @ x) # split_from ''||'' [] rest"
proof (induction x arbitrary: acc rule: has_delim.induct)
  case (3 a b cs)
  then have nb: "\<not> (a = CHR ''|'' \<and> b = CHR ''|'')" and nh: "\<not> has_delim (b # cs)"
    and ne: "\<not> ends_with_bar (b # cs)" by (simp_all add: ends_with_bar_def)
  have "split_from ''||'' acc ((a # b # cs) @ ''||'' @ rest)
      = split_from ''||'' (acc @ [a]) ((b # cs) @ ''||'' @ rest)"
    using nb by (subst split_from.simps) auto
  also have "\<dots> = ((acc @ [a]) @ b # cs) # split_from ''||'' [] rest" using nh ne by (rule "3.IH")
  finally show ?case by simp
next
  case 1
  show ?case by (subst split_from.simps) simp
next
  case (2 v)
  then have v: "v \<noteq> CHR ''|''" by (simp add: ends_with_bar_def)
  show ?case using v by (subst split_from.simps, simp, subst split_from.simps, simp)
qed

lemma has_delim_iff: "has_delim s \<longleftrightarrow> (\<exists>u v. s = u @ ''||'' @ v)"
proof (induction s rule: has_delim.induct)
  case (3 a b cs)
  show ?case
  proof
    assume "has_delim (a # b # cs)"
    then consider "a = CHR ''|'' \<and> b = CHR ''|''" | "has_delim (b # cs)" by auto
    then show "\<exists>u v. a # b # cs = u @ ''||'' @ v"
    proof cases
      case 1
      then have "a # b # cs = [] @ ''||'' @ cs" by simp
      then show ?thesis by blast
    next
      case 2
      with "3.IH" obtain u v where "b # cs = u @ ''||'' @ v" by blast
      then have "a # b # cs = (a # u) @ ''||'' @ v" by simp
      then show ?thesis by blast
    qed
  next
    assume "\<exists>u v. a # b # cs = u @ ''||'' @ v"
    then obtain u v where uv: "a # b # cs = u @ ''||'' @ v" by blast
    show "has_delim (a # b # cs)"
    proof (cases u)
      case Nil
      with uv show ?thesis by simp
    next
      case (Cons x u')
      with uv have "b # cs = u' @ ''||'' @ v" by simp
      then have "\<exists>u v. b # cs = u @ ''||'' @ v" by blast
      with "3.IH" have "has_delim (b # cs)" by blast
      then show ?thesis by simp
    qed
  qed
next
  case 1
  show ?case by simp
next
  case (2 v)
  show ?case by (auto simp: append_eq_Cons_conv)
qed

lemma split_join:
  "opts \<noteq> [] \<Longrightarrow> \<forall>x \<in> set opts. \<not> has_delim x \<Longrightarrow> \<forall>x \<in> set (butlast opts). \<not> ends_with_bar x
   \<Longrightarrow> split_from ''||'' [] (py_join ''||'' opts) = opts"
proof (induction "''||''" opts rule: py_join.induct)
  case 1
  then show ?case by simp
next
  case (2 x)
  then show ?case by (simp add: split_last_piece)
next
  case (3 x y ys)
  then have "split_from ''||'' [] (py_join ''||'' (y # ys)) = y # ys" by simp
  moreover have "split_from ''||'' [] (x @ ''||'' @ py_join ''||'' (y # ys))
      = ([] @ x) # split_from ''||'' [] (py_join ''||'' (y # ys))"
    using 3 by (intro split_piece) simp_all
  ultimately show ?case by simp
qed

text \<open>
  Claim C7, as amended: an option list of at least two elements, none of which contains
  the delimiter and none of which, the last apart, ends with the delimiter's character,
  is read back from the options field of its entry as it was; the list Yes, No, Maybe is.
\<close>

theorem options_round_trip:
  "(2 \<le> length (q_options q) \<and> (\<forall>x \<in> set (q_options q). \<not> has_delim x)
      \<and> (\<forall>x \<in> set (butlast (q_options q)). \<not> ends_with_bar x)
     \<longrightarrow> q_options (question_obj (make_entry r i q)) = q_options q)
   \<and> q_options (question_obj (make_entry r i (q\<lparr>q_options := [''Yes'', ''No'', ''Maybe'']\<rparr>)))
      = [''Yes'', ''No'', ''Maybe'']"
proof (intro conjI impI)
  assume a: "2 \<le> length (q_options q) \<and> (\<forall>x \<in> set (q_options q). \<not> has_delim x)
      \<and> (\<forall>x \<in> set (butlast (q_options q)). \<not> ends_with_bar x)"
  then have "q_options q \<noteq> []" by auto
  with a have "split_from ''||'' [] (py_join ''||'' (q_options q)) = q_options q"
    by (intro split_join) simp_all
  then show "q_options (question_obj (make_entry r i q)) = q_options q"
    by (simp add: question_obj_def make_entry_def py_split_def)
next
  show "q_options (question_obj (make_entry r i (q\<lparr>q_options := [''Yes'', ''No'', ''Maybe'']\<rparr>)))
      = [''Yes'', ''No'', ''Maybe'']"
    by (simp add: question_obj_def make_entry_def py_split_def split_from.simps)
qed

theorem options_round_trip_witness:
  "2 \<le> length [''Yes'', ''No'', ''Maybe'']
   \<and> \<not> has_delim ''Yes'' \<and> \<not> has_delim ''No'' \<and> \<not> has_delim ''Maybe''
   \<and> \<not> ends_with_bar ''Yes'' \<and> \<not> ends_with_bar ''No''
   \<and> q_options (question_obj (make_entry ''Dev'' 0
        \<lparr>q_question = ''Q'', q_options = [''Yes'', ''No'', ''Maybe''], q_answer = ''Yes''\<rparr>))
      = [''Yes'', ''No'', ''Maybe'']"
  using options_round_trip
    [of "\<lparr>q_question = ''Q'', q_options = [''Yes'', ''No'', ''Maybe''], q_answer = ''Yes''\<rparr>"
        "''Dev''" 0]
  by (simp add: ends_with_bar_def)

text \<open>
  Claim C7 as stated fails: neither "a|" nor "b" contains the delimiter, and the list of
  the two is read back as "a", "|b".
\<close>

theorem options_round_trip_counterexample:
  "\<not> has_delim ''a|'' \<and> \<not> has_delim ''b''
   \<and> q_options (question_obj (make_entry ''Dev'' 0
        \<lparr>q_question = ''Q'', q_options = [''a|'', ''b''], q_answer = ''b''\<rparr>)) = [''a'', ''|b'']"
  by (simp add: question_obj_def make_entry_def py_split_def split_from.simps)

section \<open>Reconciliation\<close>

text \<open>The ids of a collection stay distinct through \<open>setup_knowledge_base\<close>.\<close>

lemma setup_distinct_ids:
  assumes "setup_knowledge_base kb store = Inr (idx, out)"
    and "\<And>es. store = Some es \<Longrightarrow> distinct (map e_id es)"
  shows "distinct (map e_id idx)"
  using setup_cases [OF assms(1)] assms(2) by auto

text \<open>
  Claim C4, as amended: for every role \<open>r\<close> of the bank, after a reconciliation that
  repopulates the index (the collection was missing or empty, or its set of roles was
  not the bank's) and completes, the index holds exactly \<open>len(QuestionBank[r])\<close> entries
  of role \<open>r\<close>, one per question in the order of the bank, with the ordinals from 0.
\<close>

theorem reconcile_populates_role_entries:
  assumes "distinct (map fst kb)"
    and "setup_knowledge_base kb store = Inr (idx, out)"
    and "''Populating database with questions...'' \<in> set out"
    and "(r, qs) \<in> set kb"
  shows "collection_get idx r = map (\<lambda>i. make_entry r i (qs ! i)) [0..<length qs]
     \<and> length (collection_get idx r) = length qs"
proof -
  from setup_cases [OF assms(2)] assms(3) have "idx = population kb" by auto
  then have "collection_get idx r = role_batch r qs"
    using assms(1,4) by (simp add: collection_get_population)
  then show ?thesis by (simp add: role_batch_nth)
qed

theorem reconcile_populates_role_entries_witness:
  "distinct (map fst [(''Dev'', [\<lparr>q_question = ''Q1'', q_options = [''A'', ''B''], q_answer = ''A''\<rparr>, \<lparr>q_question = ''Q2'', q_options = [''A'', ''B''], q_answer = ''B''\<rparr>])])
   \<and> setup_knowledge_base [(''Dev'', [\<lparr>q_question = ''Q1'', q_options = [''A'', ''B''], q_answer = ''A''\<rparr>, \<lparr>q_question = ''Q2'', q_options = [''A'', ''B''], q_answer = ''B''\<rparr>])] None
      = Inr ([make_entry ''Dev'' 0 \<lparr>q_question = ''Q1'', q_options = [''A'', ''B''], q_answer = ''A''\<rparr>, make_entry ''Dev'' 1 \<lparr>q_question = ''Q2'', q_options = [''A'', ''B''], q_answer = ''B''\<rparr>],
             [''Collection not found. A new one will be created.'',
              ''Populating database with questions...'', ''Database population complete.''])
   \<and> (''Dev'', [\<lparr>q_question = ''Q1'', q_options = [''A'', ''B''], q_answer = ''A''\<rparr>, \<lparr>q_question = ''Q2'', q_options = [''A'', ''B''], q_answer = ''B''\<rparr>]) \<in> set [(''Dev'', [\<lparr>q_question = ''Q1'', q_options = [''A'', ''B''], q_answer = ''A''\<rparr>, \<lparr>q_question = ''Q2'', q_options = [''A'', ''B''], q_answer = ''B''\<rparr>])]
   \<and> length (collection_get [make_entry ''Dev'' 0 \<lparr>q_question = ''Q1'', q_options = [''A'', ''B''], q_answer = ''A''\<rparr>, make_entry ''Dev'' 1 \<lparr>q_question = ''Q2'', q_options = [''A'', ''B''], q_answer = ''B''\<rparr>] ''Dev'') = 2"
proof -
  have h1: "distinct (map fst [(''Dev'', [\<lparr>q_question = ''Q1'', q_options = [''A'', ''B''], q_answer = ''A''\<rparr>, \<lparr>q_question = ''Q2'', q_options = [''A'', ''B''], q_answer = ''B''\<rparr>])])" by simp
  have h2: "setup_knowledge_base [(''Dev'', [\<lparr>q_question = ''Q1'', q_options = [''A'', ''B''], q_answer = ''A''\<rparr>, \<lparr>q_question = ''Q2'', q_options = [''A'', ''B''], q_answer = ''B''\<rparr>])] None
      = Inr ([make_entry ''Dev'' 0 \<lparr>q_question = ''Q1'', q_options = [''A'', ''B''], q_answer = ''A''\<rparr>, make_entry ''Dev'' 1 \<lparr>q_question = ''Q2'', q_options = [''A'', ''B''], q_answer = ''B''\<rparr>],
             [''Collection not found. A new one will be created.'',
              ''Populating database with questions...'', ''Database population complete.''])"
    by code_simp
  have h3: "''Populating database with questions...''
      \<in> set [''Collection not found. A new one will be created.'',
              ''Populating database with questions...'', ''Database population complete.'']"
    by simp
  have h4: "(''Dev'', [\<lparr>q_question = ''Q1'', q_options = [''A'', ''B''], q_answer = ''A''\<rparr>, \<lparr>q_question = ''Q2'', q_options = [''A'', ''B''], q_answer = ''B''\<rparr>]) \<in> set [(''Dev'', [\<lparr>q_question = ''Q1'', q_options = [''A'', ''B''], q_answer = ''A''\<rparr>, \<lparr>q_question = ''Q2'', q_options = [''A'', ''B''], q_answer = ''B''\<rparr>])]" by simp
  from reconcile_populates_role_entries [OF h1 h2 h3 h4] h1 h2 h4 show ?thesis by simp
qed

text \<open>
  Claim C4 as stated fails: the bank has two questions for the role, the collection holds
  one entry of the role, so the sets of roles agree and the index is left as it is.
\<close>

theorem reconcile_stale_index_counterexample:
  "setup_knowledge_base [(''Dev'', [\<lparr>q_question = ''Q1'', q_options = [''A'', ''B''], q_answer = ''A''\<rparr>, \<lparr>q_question = ''Q2'', q_options = [''A'', ''B''], q_answer = ''B''\<rparr>])] (Some [make_entry ''Dev'' 0 \<lparr>q_question = ''Q1'', q_options = [''A'', ''B''], q_answer = ''A''\<rparr>])
   = Inr ([make_entry ''Dev'' 0 \<lparr>q_question = ''Q1'', q_options = [''A'', ''B''], q_answer = ''A''\<rparr>], [''Database is up-to-date and already populated.''])
   \<and> length (collection_get [make_entry ''Dev'' 0 \<lparr>q_question = ''Q1'', q_options = [''A'', ''B''], q_answer = ''A''\<rparr>] ''Dev'') = 1
   \<and> length [\<lparr>q_question = ''Q1'', q_options = [''A'', ''B''], q_answer = ''A''\<rparr>, \<lparr>q_question = ''Q2'', q_options = [''A'', ''B''], q_answer = ''B''\<rparr>] = 2"
  by (simp add: setup_knowledge_base_def Let_def make_entry_def collection_get_def)

text \<open>
  Claim C5, as amended: a second reconciliation right after a completed one, with the same
  bank, leaves the index as it is (the same entries, so the same count and ids); and it
  does not repopulate when every role of the bank has at least one question.
\<close>

theorem reconcile_twice:
  assumes "setup_knowledge_base kb store = Inr (idx, out)"
  shows "(\<exists>out'. setup_knowledge_base kb (Some idx) = Inr (idx, out'))
     \<and> ((\<forall>p \<in> set kb. snd p \<noteq> [])
          \<longrightarrow> setup_knowledge_base kb (Some idx)
              = Inr (idx, [''Database is up-to-date and already populated.'']))"
proof -
  from setup_cases [OF assms]
  consider (pop) "idx = population kb" "population kb \<noteq> []" "distinct (map e_id (population kb))"
    | (skip) "idx \<noteq> []" "set (map e_role idx) = set (map fst kb)"
    by blast
  then show ?thesis
  proof cases
    case skip
    then have "setup_knowledge_base kb (Some idx)
        = Inr (idx, [''Database is up-to-date and already populated.''])"
      by (simp add: setup_knowledge_base_def Let_def)
    then show ?thesis by simp
  next
    case pop
    have add: "add_texts [] (population kb) = Inr (population kb)"
      using pop by (simp add: add_texts_empty_collection)
    have first: "\<exists>out'. setup_knowledge_base kb (Some idx) = Inr (idx, out')"
      using pop add by (simp add: setup_knowledge_base_def Let_def)
    have second: "setup_knowledge_base kb (Some idx)
        = Inr (idx, [''Database is up-to-date and already populated.''])"
      if all: "\<forall>p \<in> set kb. snd p \<noteq> []"
    proof -
      have "e_role ` set (population kb) = fst ` set kb"
      proof (rule set_eqI)
        fix r
        show "r \<in> e_role ` set (population kb) \<longleftrightarrow> r \<in> fst ` set kb"
          using all by (force simp: roles_of_population)
      qed
      then show ?thesis using pop
        by (simp add: setup_knowledge_base_def Let_def)
    qed
    from first second show ?thesis by blast
  qed
qed

theorem reconcile_twice_witness:
  "setup_knowledge_base [(''Dev'', [\<lparr>q_question = ''Q1'', q_options = [''A'', ''B''], q_answer = ''A''\<rparr>, \<lparr>q_question = ''Q2'', q_options = [''A'', ''B''], q_answer = ''B''\<rparr>])] None
      = Inr ([make_entry ''Dev'' 0 \<lparr>q_question = ''Q1'', q_options = [''A'', ''B''], q_answer = ''A''\<rparr>, make_entry ''Dev'' 1 \<lparr>q_question = ''Q2'', q_options = [''A'', ''B''], q_answer = ''B''\<rparr>],
             [''Collection not found. A new one will be created.'',
              ''Populating database with questions...'', ''Database population complete.''])
   \<and> snd (''Dev'', [\<lparr>q_question = ''Q1'', q_options = [''A'', ''B''], q_answer = ''A''\<rparr>, \<lparr>q_question = ''Q2'', q_options = [''A'', ''B''], q_answer = ''B''\<rparr>]) \<noteq> []
   \<and> setup_knowledge_base [(''Dev'', [\<lparr>q_question = ''Q1'', q_options = [''A'', ''B''], q_answer = ''A''\<rparr>, \<lparr>q_question = ''Q2'', q_options = [''A'', ''B''], q_answer = ''B''\<rparr>])]
        (Some [make_entry ''Dev'' 0 \<lparr>q_question = ''Q1'', q_options = [''A'', ''B''], q_answer = ''A''\<rparr>, make_entry ''Dev'' 1 \<lparr>q_question = ''Q2'', q_options = [''A'', ''B''], q_answer = ''B''\<rparr>])
      = Inr ([make_entry ''Dev'' 0 \<lparr>q_question = ''Q1'', q_options = [''A'', ''B''], q_answer = ''A''\<rparr>, make_entry ''Dev'' 1 \<lparr>q_question = ''Q2'', q_options = [''A'', ''B''], q_answer = ''B''\<rparr>],
             [''Database is up-to-date and already populated.''])"
proof -
  have h: "setup_knowledge_base [(''Dev'', [\<lparr>q_question = ''Q1'', q_options = [''A'', ''B''], q_answer = ''A''\<rparr>, \<lparr>q_question = ''Q2'', q_options = [''A'', ''B''], q_answer = ''B''\<rparr>])] None
      = Inr ([make_entry ''Dev'' 0 \<lparr>q_question = ''Q1'', q_options = [''A'', ''B''], q_answer = ''A''\<rparr>, make_entry ''Dev'' 1 \<lparr>q_question = ''Q2'', q_options = [''A'', ''B''], q_answer = ''B''\<rparr>],
             [''Collection not found. A new one will be created.'',
              ''Populating database with questions...'', ''Database population complete.''])"
    by code_simp
  from reconcile_twice [OF h] h show ?thesis by simp
qed

text \<open>
  Claim C5 as stated fails: a role of the bank without questions has no entry, so the
  second reconciliation finds another set of roles than the bank's, and repopulates.
\<close>

theorem reconcile_twice_repopulates_counterexample:
  "setup_knowledge_base [(''Dev'', [\<lparr>q_question = ''Q1'', q_options = [''A'', ''B''], q_answer = ''A''\<rparr>]), (''QA'', [])] None
   = Inr ([make_entry ''Dev'' 0 \<lparr>q_question = ''Q1'', q_options = [''A'', ''B''], q_answer = ''A''\<rparr>],
          [''Collection not found. A new one will be created.'',
           ''Populating database with questions...'', ''Database population complete.''])
   \<and> setup_knowledge_base [(''Dev'', [\<lparr>q_question = ''Q1'', q_options = [''A'', ''B''], q_answer = ''A''\<rparr>]), (''QA'', [])] (Some [make_entry ''Dev'' 0 \<lparr>q_question = ''Q1'', q_options = [''A'', ''B''], q_answer = ''A''\<rparr>])
   = Inr ([make_entry ''Dev'' 0 \<lparr>q_question = ''Q1'', q_options = [''A'', ''B''], q_answer = ''A''\<rparr>],
          [''Knowledge base roles mismatch detected. Rebuilding database...'',
           ''Populating database with questions...'', ''Database population complete.''])"
  by (simp add: setup_knowledge_base_def Let_def population_def role_batch_def add_texts_def)

end
